theory Spec2Isabelle
  imports Main "HOL-Library.Sublist"
begin

section \<open>Data model\<close>

text \<open>
  Every failure of the Python code is a value: a missing dictionary key
  (\<open>state["question"]\<close>, \<open>response["results"]\<close>), an exception raised by an external
  service (model, search, retriever), a label or node name that the graph has no
  branch for, and the error the graph library raises when a run reaches its recursion
  limit.
\<close>

datatype error =
  KeyError string | ServiceError string | GraphError string | GraphRecursionError

text \<open>\<open>langchain.schema.Document\<close>: text content and metadata (empty by default).\<close>

record Document =
  page_content :: string
  metadata :: "(string \<times> string) list"

text \<open>
  \<open>state.py\<close>: \<open>GraphState\<close> is a \<open>TypedDict\<close>, a dictionary whose keys may be absent.
  A node returns a dictionary of the same shape holding only the keys it writes.
\<close>

record GraphState =
  question :: "string option"
  generation :: "string option"
  web_search :: "bool option"
  documents :: "Document list option"

text \<open>
  The \<open>binary_score\<close> of a grade. \<open>GradeDocuments\<close> (\<open>retrieval_grader.py\<close>) declares it
  \<open>str\<close>. The schemas of the hallucination and answer graders are not among the
  sources: \<open>graph.py\<close> tests their score for truth, \<open>test_chains.py\<close> compares it with
  the string \<open>'no'\<close>, so the score is a Python value that is a string or a boolean, with
  Python's truth value.
\<close>

datatype pyval = PyStr string | PyBool bool

fun truthy :: "pyval \<Rightarrow> bool" where
  "truthy (PyStr s) = (s \<noteq> [])"
| "truthy (PyBool b) = b"

record 'a Grade =
  binary_score :: 'a

type_synonym GradeDocuments = "string Grade"
type_synonym GradeHallucinations = "pyval Grade"
type_synonym GradeAnswer = "pyval Grade"

record RouteQuery =
  datasource :: string

text \<open>\<open>web_search.py\<close>, line 10: \<open>web_search_tool = TavilySearch(max_results=3)\<close>.\<close>

record TavilySearch =
  max_results :: nat

definition web_search_tool :: TavilySearch where
  "web_search_tool = \<lparr>max_results = 3\<rparr>"

text \<open>The search response is a dictionary; each result is a dictionary too.\<close>

record tavily_result =
  url :: string
  content :: "string option"

record tavily_response =
  results :: "tavily_result list option"

text \<open>
  The external collaborators. Each call may raise. A traversal is given one such
  record per step, so that two calls with the same arguments may answer differently.
\<close>

record env =
  retriever_invoke :: "string \<Rightarrow> error + Document list"
  generation_chain_invoke :: "Document list \<Rightarrow> string \<Rightarrow> error + string"
  web_search_tool_invoke :: "TavilySearch \<Rightarrow> string \<Rightarrow> error + tavily_response"
  retrieval_grader_invoke :: "string \<Rightarrow> string \<Rightarrow> error + GradeDocuments"
  hallucination_grader_invoke :: "Document list \<Rightarrow> string \<Rightarrow> error + GradeHallucinations"
  answer_grader_invoke :: "string \<Rightarrow> string \<Rightarrow> error + GradeAnswer"
  question_router_invoke :: "string \<Rightarrow> error + RouteQuery"

section \<open>Dictionary and string helpers\<close>

text \<open>\<open>d[k]\<close>: raises \<open>KeyError\<close> when the key is absent.\<close>

definition getitem :: "string \<Rightarrow> 'a option \<Rightarrow> error + 'a" where
  "getitem k v = (case v of None \<Rightarrow> Inl (KeyError k) | Some x \<Rightarrow> Inr x)"

text \<open>\<open>state.get("documents", [])\<close>.\<close>

definition evidence :: "GraphState \<Rightarrow> Document list" where
  "evidence state = (case documents state of None \<Rightarrow> [] | Some ds \<Rightarrow> ds)"

text \<open>\<open>sep.join(xs)\<close>.\<close>

fun join :: "string \<Rightarrow> string list \<Rightarrow> string" where
  "join sep [] = []"
| "join sep [x] = x"
| "join sep (x # y # ys) = x @ sep @ join sep (y # ys)"

text \<open>\<open>[r["content"] for r in tavily_results]\<close>: the first missing key raises.\<close>

fun contents :: "tavily_result list \<Rightarrow> error + string list" where
  "contents [] = Inr []"
| "contents (r # rs) =
     (case getitem ''content'' (content r) of
        Inl err \<Rightarrow> Inl err
      | Inr c \<Rightarrow> (case contents rs of Inl err \<Rightarrow> Inl err | Inr cs \<Rightarrow> Inr (c # cs)))"

text \<open>
  The orchestrator writes a node's update into the state: a key of the update
  overwrites the state's value, a key the update lacks keeps it.
\<close>

definition overwrite :: "'a option \<Rightarrow> 'a option \<Rightarrow> 'a option" where
  "overwrite old new = (case new of None \<Rightarrow> old | Some v \<Rightarrow> Some v)"

definition merge :: "GraphState \<Rightarrow> GraphState \<Rightarrow> GraphState" where
  "merge state upd =
     \<lparr>question = overwrite (question state) (question upd),
      generation = overwrite (generation state) (generation upd),
      web_search = overwrite (web_search state) (web_search upd),
      documents = overwrite (documents state) (documents upd)\<rparr>"

section \<open>Node names\<close>

text \<open>
  Modelled from the spec: \<open>workflow/consts.py\<close> is not among the sources. The
  orchestrator's states are RETRIEVE, GRADE_DOCUMENTS, GENERATE and WEBSEARCH, and the
  router's label for a web search is the string \<open>websearch\<close>, which
  \<open>route_question\<close> compares with \<open>WEBSEARCH\<close>. \<open>END\<close> is the library's terminal node.
\<close>

definition RETRIEVE :: string where "RETRIEVE = ''retrieve''"
definition GRADE_DOCUMENTS :: string where "GRADE_DOCUMENTS = ''grade_documents''"
definition GENERATE :: string where "GENERATE = ''generate''"
definition WEBSEARCH :: string where "WEBSEARCH = ''websearch''"
definition END :: string where "END = ''__end__''"

section \<open>Nodes\<close>

text \<open>\<open>nodes/retrieve.py\<close>.\<close>

definition retrieve :: "env \<Rightarrow> GraphState \<Rightarrow> error + GraphState" where
  "retrieve e state =
     (case getitem ''question'' (question state) of
        Inl err \<Rightarrow> Inl err
      | Inr q \<Rightarrow>
     (case retriever_invoke e q of
        Inl err \<Rightarrow> Inl err
      | Inr docs \<Rightarrow>
          Inr \<lparr>question = Some q, generation = None, web_search = None,
               documents = Some docs\<rparr>))"

text \<open>
  \<open>nodes/web_search.py\<close>. The node is named \<open>web_search\<close> in the source, as the state's
  key is. \<open>documents.append\<close> changes the state's own list, and the update writes the same
  list back.
\<close>

definition web_search_node :: "env \<Rightarrow> GraphState \<Rightarrow> error + GraphState" where
  "web_search_node e state =
     (case getitem ''question'' (question state) of
        Inl err \<Rightarrow> Inl err
      | Inr q \<Rightarrow>
     (let docs = evidence state in
     (case web_search_tool_invoke e web_search_tool q of
        Inl err \<Rightarrow> Inl err
      | Inr response \<Rightarrow>
     (case getitem ''results'' (results response) of
        Inl err \<Rightarrow> Inl err
      | Inr tavily_results \<Rightarrow>
     (case contents tavily_results of
        Inl err \<Rightarrow> Inl err
      | Inr cs \<Rightarrow>
          (let joined_tavily_result = join [CHR 0x0A] cs;
               web_results = \<lparr>page_content = joined_tavily_result, metadata = []\<rparr>;
               docs' = (if docs \<noteq> [] then docs @ [web_results] else [web_results])
           in Inr \<lparr>question = Some q, generation = None, web_search = None,
                    documents = Some docs'\<rparr>))))))"

text \<open>\<open>nodes/generate.py\<close>.\<close>

definition generate :: "env \<Rightarrow> GraphState \<Rightarrow> error + GraphState" where
  "generate e state =
     (case getitem ''question'' (question state) of
        Inl err \<Rightarrow> Inl err
      | Inr q \<Rightarrow>
     (case getitem ''documents'' (documents state) of
        Inl err \<Rightarrow> Inl err
      | Inr docs \<Rightarrow>
     (case generation_chain_invoke e docs q of
        Inl err \<Rightarrow> Inl err
      | Inr g \<Rightarrow>
          Inr \<lparr>question = Some q, generation = Some g, web_search = None,
               documents = Some docs\<rparr>)))"

text \<open>
  Modelled from the spec: \<open>workflow/nodes/grade_documents.py\<close> is not among the
  sources. The node iterates the evidence set, applies the relevance grader to each
  document's text and the question, retains only the documents graded relevant (verdict
  \<open>yes\<close>), and sets the web-search-needed flag by the policy the spec names: filter, and
  if anything was dropped, flag for supplementation. (Of a non-empty evidence set of
  which zero documents remain relevant, something was dropped.) Its output is the
  filtered evidence set and the flag; as every node under \<open>src/\<close> does, it returns the
  question it read, which no step mutates. A failure of the grader propagates.
\<close>

fun grade_each :: "env \<Rightarrow> string \<Rightarrow> Document list \<Rightarrow> error + (Document list \<times> bool)" where
  "grade_each e q [] = Inr ([], False)"
| "grade_each e q (d # ds) =
     (case retrieval_grader_invoke e (page_content d) q of
        Inl err \<Rightarrow> Inl err
      | Inr score \<Rightarrow>
     (case grade_each e q ds of
        Inl err \<Rightarrow> Inl err
      | Inr (kept, dropped) \<Rightarrow>
          (if binary_score score = ''yes'' then Inr (d # kept, dropped)
           else Inr (kept, True))))"

definition grade_documents :: "env \<Rightarrow> GraphState \<Rightarrow> error + GraphState" where
  "grade_documents e state =
     (case getitem ''question'' (question state) of
        Inl err \<Rightarrow> Inl err
      | Inr q \<Rightarrow>
     (case getitem ''documents'' (documents state) of
        Inl err \<Rightarrow> Inl err
      | Inr docs \<Rightarrow>
     (case grade_each e q docs of
        Inl err \<Rightarrow> Inl err
      | Inr (filtered_docs, dropped) \<Rightarrow>
          Inr \<lparr>question = Some q, generation = None, web_search = Some dropped,
               documents = Some filtered_docs\<rparr>)))"

text \<open>The verdict of the relevance grader on one document, as a predicate.\<close>

definition graded_relevant :: "env \<Rightarrow> string \<Rightarrow> Document \<Rightarrow> bool" where
  "graded_relevant e q d =
     (case retrieval_grader_invoke e (page_content d) q of
        Inl err \<Rightarrow> False
      | Inr score \<Rightarrow> binary_score score = ''yes'')"

definition grader_answers :: "env \<Rightarrow> string \<Rightarrow> Document \<Rightarrow> bool" where
  "grader_answers e q d =
     (case retrieval_grader_invoke e (page_content d) q of
        Inl err \<Rightarrow> False
      | Inr score \<Rightarrow> True)"

section \<open>Branch functions of \<open>graph.py\<close>\<close>

definition decide_to_generate :: "env \<Rightarrow> GraphState \<Rightarrow> error + string" where
  "decide_to_generate e state =
     (case getitem ''web_search'' (web_search state) of
        Inl err \<Rightarrow> Inl err
      | Inr flag \<Rightarrow> Inr (if flag then WEBSEARCH else GENERATE))"

definition grade_generation_grounded_in_documents_and_question ::
    "env \<Rightarrow> GraphState \<Rightarrow> error + string" where
  "grade_generation_grounded_in_documents_and_question e state =
     (case getitem ''question'' (question state) of
        Inl err \<Rightarrow> Inl err
      | Inr q \<Rightarrow>
     (case getitem ''documents'' (documents state) of
        Inl err \<Rightarrow> Inl err
      | Inr docs \<Rightarrow>
     (case getitem ''generation'' (generation state) of
        Inl err \<Rightarrow> Inl err
      | Inr g \<Rightarrow>
     (case hallucination_grader_invoke e docs g of
        Inl err \<Rightarrow> Inl err
      | Inr score \<Rightarrow>
          (if truthy (binary_score score) then
             (case answer_grader_invoke e q g of
                Inl err \<Rightarrow> Inl err
              | Inr score' \<Rightarrow>
                  Inr (if truthy (binary_score score') then ''useful'' else ''not useful''))
           else Inr ''not supported'')))))"

definition route_question :: "env \<Rightarrow> GraphState \<Rightarrow> error + string" where
  "route_question e state =
     (case getitem ''question'' (question state) of
        Inl err \<Rightarrow> Inl err
      | Inr q \<Rightarrow>
     (case question_router_invoke e q of
        Inl err \<Rightarrow> Inl err
      | Inr source \<Rightarrow> Inr (if datasource source = WEBSEARCH then WEBSEARCH else RETRIEVE)))"

section \<open>The graph\<close>

text \<open>
  \<open>graph.py\<close>, lines 41 to 63. An edge leads to a fixed node; a conditional edge calls
  its branch function on the state and looks the returned label up in its table.
\<close>

datatype edge =
  Edge string
| Conditional "env \<Rightarrow> GraphState \<Rightarrow> error + string" "(string \<times> string) list"

record StateGraph =
  nodes :: "(string \<times> (env \<Rightarrow> GraphState \<Rightarrow> error + GraphState)) list"
  entry_point :: edge
  edges :: "(string \<times> edge) list"

definition workflow :: StateGraph where
  "workflow =
     \<lparr>nodes =
        [(RETRIEVE, retrieve),
         (GRADE_DOCUMENTS, grade_documents),
         (GENERATE, generate),
         (WEBSEARCH, web_search_node)],
      entry_point =
        Conditional route_question [(WEBSEARCH, WEBSEARCH), (RETRIEVE, RETRIEVE)],
      edges =
        [(RETRIEVE, Edge GRADE_DOCUMENTS),
         (GRADE_DOCUMENTS,
            Conditional decide_to_generate [(WEBSEARCH, WEBSEARCH), (GENERATE, GENERATE)]),
         (GENERATE,
            Conditional grade_generation_grounded_in_documents_and_question
              [(''not supported'', GENERATE), (''useful'', END), (''not useful'', WEBSEARCH)]),
         (WEBSEARCH, Edge GENERATE)]\<rparr>"

fun follow :: "env \<Rightarrow> GraphState \<Rightarrow> edge \<Rightarrow> error + string" where
  "follow e state (Edge target) = Inr target"
| "follow e state (Conditional path path_map) =
     (case path e state of
        Inl err \<Rightarrow> Inl err
      | Inr label \<Rightarrow>
          (case map_of path_map label of
             None \<Rightarrow> Inl (GraphError label)
           | Some target \<Rightarrow> Inr target))"

text \<open>The first node of a traversal.\<close>

definition start :: "StateGraph \<Rightarrow> env \<Rightarrow> GraphState \<Rightarrow> error + string" where
  "start g e state = follow e state (entry_point g)"

text \<open>
  One step: run the node, write its update into the state, follow the node's edge on
  the new state.
\<close>

definition step :: "StateGraph \<Rightarrow> env \<Rightarrow> string \<times> GraphState \<Rightarrow> error + (string \<times> GraphState)" where
  "step g e c =
     (case map_of (nodes g) (fst c) of
        None \<Rightarrow> Inl (GraphError (fst c))
      | Some node \<Rightarrow>
     (case node e (snd c) of
        Inl err \<Rightarrow> Inl err
      | Inr upd \<Rightarrow>
     (let state' = merge (snd c) upd in
     (case map_of (edges g) (fst c) of
        None \<Rightarrow> Inl (GraphError (fst c))
      | Some ed \<Rightarrow>
     (case follow e state' ed of
        Inl err \<Rightarrow> Inl err
      | Inr target \<Rightarrow> Inr (target, state'))))))"

text \<open>
  \<open>graph.py\<close>, line 65: \<open>app = workflow.compile()\<close>. The compiled graph is run by the
  library, which bounds every run by its recursion limit; the repository sets none, so
  the library's default of 25 applies: a run executes at most 25 nodes, and after the
  25th it stops with \<open>GraphRecursionError\<close>.
\<close>

definition recursion_limit :: nat where
  "recursion_limit = 25"

text \<open>
  The configuration after \<open>n\<close> steps from a node, stopping at \<open>END\<close>, when \<open>k\<close> node
  executions are left of the recursion limit. \<open>E t\<close> is the behaviour of the external
  services at step \<open>t\<close>.
\<close>

fun run :: "StateGraph \<Rightarrow> (nat \<Rightarrow> env) \<Rightarrow> nat \<Rightarrow> nat \<Rightarrow> string \<times> GraphState \<Rightarrow> error + (string \<times> GraphState)" where
  "run g E k 0 c = Inr c"
| "run g E 0 (Suc n) c = Inl GraphRecursionError"
| "run g E (Suc k) (Suc n) c =
     (if fst c = END then Inr c
      else (case step g (E 0) c of
              Inl err \<Rightarrow> Inl err
            | Inr c' \<Rightarrow> run g (\<lambda>t. E (Suc t)) k n c'))"

text \<open>
  \<open>app.invoke\<close>: the entry branch, then the run to its end: the final state, or the
  error that stopped it.
\<close>

definition invoke :: "StateGraph \<Rightarrow> (nat \<Rightarrow> env) \<Rightarrow> GraphState \<Rightarrow> error + GraphState" where
  "invoke g E state =
     (case start g (E 0) state of
        Inl err \<Rightarrow> Inl err
      | Inr name \<Rightarrow>
          (case run g (\<lambda>t. E (Suc t)) recursion_limit (Suc recursion_limit) (name, state) of
             Inl err \<Rightarrow> Inl err
           | Inr c \<Rightarrow> Inr (snd c)))"

section \<open>Persistent outcomes of the external services\<close>

text \<open>
  What a traversal that loops assumes of the services: the generator and the search
  answer at every step, and the combined grading of every generated state returns one
  and the same label.
\<close>

definition generation_succeeds :: "(nat \<Rightarrow> env) \<Rightarrow> bool" where
  "generation_succeeds E = (\<forall>t docs q. \<exists>g. generation_chain_invoke (E t) docs q = Inr g)"

definition search_succeeds :: "(nat \<Rightarrow> env) \<Rightarrow> bool" where
  "search_succeeds E =
     (\<forall>t q. \<exists>response rs cs.
        web_search_tool_invoke (E t) web_search_tool q = Inr response \<and>
        results response = Some rs \<and> contents rs = Inr cs)"

definition grading_always :: "(nat \<Rightarrow> env) \<Rightarrow> string \<Rightarrow> bool" where
  "grading_always E label =
     (\<forall>t state. question state \<noteq> None \<and> documents state \<noteq> None \<and> generation state \<noteq> None \<longrightarrow>
        grade_generation_grounded_in_documents_and_question (E t) state = Inr label)"

section \<open>Example inputs\<close>

definition doc_agents :: Document where
  "doc_agents = \<lparr>page_content = ''agents'', metadata = []\<rparr>"

definition doc_pasta :: Document where
  "doc_pasta = \<lparr>page_content = ''pasta'', metadata = []\<rparr>"

definition ex_results :: "tavily_result list" where
  "ex_results =
     [\<lparr>url = ''u1'', content = Some ''sunny''\<rparr>, \<lparr>url = ''u2'', content = Some ''22 C''\<rparr>]"

definition ex_response :: tavily_response where
  "ex_response = \<lparr>results = Some ex_results\<rparr>"

definition ex_question :: string where
  "ex_question = ''What is an agent?''"

text \<open>
  Services that answer as the tests of \<open>test_chains.py\<close> expect: the relevance grader
  says \<open>yes\<close> or \<open>no\<close>, the hallucination grader says \<open>no\<close>, the router \<open>vectorstore\<close>.
\<close>

definition ex_env :: env where
  "ex_env =
     \<lparr>retriever_invoke = (\<lambda>q. Inr [doc_agents, doc_pasta]),
      generation_chain_invoke = (\<lambda>docs q. Inr ''an answer''),
      web_search_tool_invoke = (\<lambda>tool q. Inr ex_response),
      retrieval_grader_invoke =
        (\<lambda>d q. Inr \<lparr>binary_score = (if d = ''agents'' then ''yes'' else ''no'')\<rparr>),
      hallucination_grader_invoke = (\<lambda>docs g. Inr \<lparr>binary_score = PyStr ''no''\<rparr>),
      answer_grader_invoke = (\<lambda>q g. Inr \<lparr>binary_score = PyStr ''yes''\<rparr>),
      question_router_invoke = (\<lambda>q. Inr \<lparr>datasource = ''vectorstore''\<rparr>)\<rparr>"

definition ex_state :: GraphState where
  "ex_state =
     \<lparr>question = Some ex_question, generation = None, web_search = None,
      documents = None\<rparr>"

text \<open>The state after RETRIEVE, after GRADE_DOCUMENTS and after GENERATE.\<close>

definition retrieved_state :: GraphState where
  "retrieved_state = ex_state\<lparr>documents := Some [doc_agents, doc_pasta]\<rparr>"

definition graded_state :: GraphState where
  "graded_state = ex_state\<lparr>web_search := Some True, documents := Some [doc_agents]\<rparr>"

definition generated_state :: GraphState where
  "generated_state = graded_state\<lparr>generation := Some ''an answer''\<rparr>"

text \<open>An input state that already carries three documents, and one with none.\<close>

definition seeded_state :: GraphState where
  "seeded_state = ex_state\<lparr>documents := Some [doc_pasta, doc_pasta, doc_agents]\<rparr>"

definition empty_state :: GraphState where
  "empty_state = ex_state\<lparr>documents := Some []\<rparr>"

text \<open>
  Graders whose score is the empty string, the one string that is false, and a router
  with a label of its own.
\<close>

definition unsupported_env :: env where
  "unsupported_env =
     ex_env\<lparr>hallucination_grader_invoke := (\<lambda>docs g. Inr \<lparr>binary_score = PyStr []\<rparr>)\<rparr>"

definition not_useful_env :: env where
  "not_useful_env =
     ex_env\<lparr>hallucination_grader_invoke := (\<lambda>docs g. Inr \<lparr>binary_score = PyStr ''yes''\<rparr>),
            answer_grader_invoke := (\<lambda>q g. Inr \<lparr>binary_score = PyStr []\<rparr>)\<rparr>"

text \<open>Services that behave the same at every step.\<close>

definition always :: "env \<Rightarrow> nat \<Rightarrow> env" where
  "always e t = e"

definition odd_router_env :: env where
  "odd_router_env = ex_env\<lparr>question_router_invoke := (\<lambda>q. Inr \<lparr>datasource = ''archive''\<rparr>)\<rparr>"

definition web_router_env :: env where
  "web_router_env = ex_env\<lparr>question_router_invoke := (\<lambda>q. Inr \<lparr>datasource = ''websearch''\<rparr>)\<rparr>"

text \<open>The document a search of \<open>ex_env\<close> appends, and the states after WEBSEARCH and GENERATE.\<close>

definition web_doc :: Document where
  "web_doc = \<lparr>page_content = ''sunny'' @ [CHR 0x0A] @ ''22 C'', metadata = []\<rparr>"

definition searched_state :: GraphState where
  "searched_state = graded_state\<lparr>documents := Some [doc_agents, web_doc]\<rparr>"

definition answered_state :: GraphState where
  "answered_state = searched_state\<lparr>generation := Some ''an answer''\<rparr>"

section \<open>Facts about the helpers and the nodes\<close>

lemmas node_names = RETRIEVE_def GRADE_DOCUMENTS_def GENERATE_def WEBSEARCH_def END_def

lemma getitem_Inr: "getitem k v = Inr x \<longleftrightarrow> v = Some x"
  by (simp add: getitem_def split: option.splits)

lemma contents_Inr: "contents rs = Inr cs \<longleftrightarrow> map content rs = map Some cs"
proof (induction rs arbitrary: cs)
  case Nil
  then show ?case by auto
next
  case (Cons r rs)
  show ?case
  proof (cases "content r")
    case None
    then show ?thesis by (auto simp: getitem_def)
  next
    case (Some c)
    then show ?thesis
      using Cons.IH [of "tl cs"] by (cases cs) (auto simp: getitem_def split: sum.splits)
  qed
qed


lemma generate_Inr:
  "generate e state = Inr upd \<Longrightarrow>
     \<exists>q docs g. question state = Some q \<and> documents state = Some docs \<and>
       generation_chain_invoke e docs q = Inr g \<and>
       upd = \<lparr>question = Some q, generation = Some g, web_search = None, documents = Some docs\<rparr>"
  by (auto simp: generate_def getitem_def split: option.splits sum.splits)

lemma web_search_node_Inr:
  "web_search_node e state = Inr upd \<Longrightarrow>
     \<exists>q response rs cs. question state = Some q \<and>
       web_search_tool_invoke e web_search_tool q = Inr response \<and>
       results response = Some rs \<and> contents rs = Inr cs \<and>
       upd = \<lparr>question = Some q, generation = None, web_search = None,
              documents = Some (evidence state @
                [\<lparr>page_content = join [CHR 0x0A] cs, metadata = []\<rparr>])\<rparr>"
  by (auto simp: web_search_node_def getitem_def Let_def split: option.splits sum.splits if_splits)

lemma web_search_node_success:
  assumes "question state = Some q"
    and "web_search_tool_invoke e web_search_tool q = Inr response"
    and "results response = Some rs"
    and "contents rs = Inr cs"
  shows "web_search_node e state =
           Inr \<lparr>question = Some q, generation = None, web_search = None,
                documents = Some (evidence state @
                  [\<lparr>page_content = join [CHR 0x0A] cs, metadata = []\<rparr>])\<rparr>"
  using assms by (simp add: web_search_node_def getitem_def Let_def)


lemma grade_each_filter:
  "\<forall>d\<in>set docs. grader_answers e q d \<Longrightarrow>
     grade_each e q docs =
       Inr (filter (graded_relevant e q) docs, \<exists>d\<in>set docs. \<not> graded_relevant e q d)"
  by (induction docs) (auto simp: grader_answers_def graded_relevant_def split: sum.splits)

lemma evidence_merge:
  "evidence (merge state upd) = (case documents upd of None \<Rightarrow> evidence state | Some ds \<Rightarrow> ds)"
  by (simp add: evidence_def merge_def overwrite_def split: option.splits)


section \<open>Facts about one step of the graph\<close>

lemma step_GENERATE:
  "step workflow e (GENERATE, state) = Inr (target, state') \<Longrightarrow>
     \<exists>upd. generate e state = Inr upd \<and> state' = merge state upd \<and>
       target \<in> {GENERATE, WEBSEARCH, END}"
  by (auto simp: step_def workflow_def node_names Let_def split: sum.splits option.splits if_splits)

lemma step_WEBSEARCH:
  "step workflow e (WEBSEARCH, state) = Inr (target, state') \<Longrightarrow>
     \<exists>upd. web_search_node e state = Inr upd \<and> state' = merge state upd \<and> target = GENERATE"
  by (auto simp: step_def workflow_def node_names Let_def split: sum.splits option.splits if_splits)


lemma step_GRADE_DOCUMENTS_success:
  "grade_documents e state = Inr upd \<Longrightarrow> web_search (merge state upd) = Some flag \<Longrightarrow>
     step workflow e (GRADE_DOCUMENTS, state) =
       Inr (if flag then WEBSEARCH else GENERATE, merge state upd)"
  by (simp add: step_def workflow_def node_names decide_to_generate_def getitem_def)

lemma run_pos:
  "0 < k \<Longrightarrow> run g E k (Suc n) c =
     (if fst c = END then Inr c
      else (case step g (E 0) c of
              Inl err \<Rightarrow> Inl err
            | Inr c' \<Rightarrow> run g (\<lambda>t. E (Suc t)) (k - 1) n c'))"
  by (cases k) (auto split: sum.splits)

lemma node_distinct:
  "GENERATE \<noteq> END" "WEBSEARCH \<noteq> END" "RETRIEVE \<noteq> END" "GRADE_DOCUMENTS \<noteq> END"
  "WEBSEARCH \<noteq> GENERATE" "WEBSEARCH \<noteq> RETRIEVE"
  by (simp_all add: node_names)

lemma step_WEBSEARCH_success:
  "web_search_node e state = Inr upd \<Longrightarrow>
     step workflow e (WEBSEARCH, state) = Inr (GENERATE, merge state upd)"
  by (simp add: step_def workflow_def node_names)

lemma step_GENERATE_success:
  "generate e state = Inr upd \<Longrightarrow>
   grade_generation_grounded_in_documents_and_question e (merge state upd) = Inr label \<Longrightarrow>
   map_of [(''not supported'', GENERATE), (''useful'', END), (''not useful'', WEBSEARCH)] label
     = Some target \<Longrightarrow>
     step workflow e (GENERATE, state) = Inr (target, merge state upd)"
  by (simp add: step_def workflow_def node_names)

section \<open>Facts about the example inputs\<close>

lemma ex_state_question:
  "question ex_state = Some ex_question" "question retrieved_state = Some ex_question"
  "question graded_state = Some ex_question" "question generated_state = Some ex_question"
  "question seeded_state = Some ex_question" "question empty_state = Some ex_question"
  by (simp_all add: ex_state_def retrieved_state_def graded_state_def generated_state_def
      seeded_state_def empty_state_def)

lemma ex_state_evidence:
  "evidence ex_state = []" "evidence retrieved_state = [doc_agents, doc_pasta]"
  "evidence graded_state = [doc_agents]" "evidence generated_state = [doc_agents]"
  "evidence seeded_state = [doc_pasta, doc_pasta, doc_agents]" "evidence empty_state = []"
  by (simp_all add: evidence_def ex_state_def retrieved_state_def graded_state_def
      generated_state_def seeded_state_def empty_state_def)

lemma ex_search:
  "web_search_tool_invoke ex_env tool q = Inr ex_response"
  "results ex_response = Some ex_results"
  "contents ex_results = Inr [''sunny'', ''22 C'']"
  "map content ex_results = map Some [''sunny'', ''22 C'']"
  by (simp_all add: ex_env_def ex_response_def ex_results_def getitem_def)

lemma ex_router:
  "question_router_invoke web_router_env q = Inr \<lparr>datasource = ''websearch''\<rparr>"
  "question_router_invoke ex_env q = Inr \<lparr>datasource = ''vectorstore''\<rparr>"
  "question_router_invoke odd_router_env q = Inr \<lparr>datasource = ''archive''\<rparr>"
  "retriever_invoke ex_env q = Inr [doc_agents, doc_pasta]"
  by (simp_all add: ex_env_def web_router_env_def odd_router_env_def)

lemma ex_grader:
  "graded_relevant ex_env q doc_agents" "\<not> graded_relevant ex_env q doc_pasta"
  "grader_answers ex_env q d"
  by (simp_all add: graded_relevant_def grader_answers_def ex_env_def doc_agents_def doc_pasta_def)

lemma ex_generate:
  "generate ex_env graded_state =
     Inr \<lparr>question = Some ex_question, generation = Some ''an answer'', web_search = None,
          documents = Some [doc_agents]\<rparr>"
  "generate ex_env searched_state =
     Inr \<lparr>question = Some ex_question, generation = Some ''an answer'', web_search = None,
          documents = Some [doc_agents, web_doc]\<rparr>"
  by (simp_all add: generate_def getitem_def ex_env_def graded_state_def searched_state_def
      ex_state_def)

lemma ex_web_search:
  "web_search_node ex_env graded_state =
     Inr \<lparr>question = Some ex_question, generation = None, web_search = None,
          documents = Some [doc_agents, web_doc]\<rparr>"
  using web_search_node_success [OF ex_state_question(3) ex_search(1) ex_search(2) ex_search(3)]
  by (simp add: ex_state_evidence web_doc_def)

lemma ex_merge:
  "merge graded_state \<lparr>question = Some ex_question, generation = None, web_search = None,
      documents = Some [doc_agents, web_doc]\<rparr> = searched_state"
  "merge searched_state \<lparr>question = Some ex_question, generation = Some ''an answer'',
      web_search = None, documents = Some [doc_agents, web_doc]\<rparr> = answered_state"
  "merge graded_state \<lparr>question = Some ex_question, generation = Some ''an answer'',
      web_search = None, documents = Some [doc_agents]\<rparr> = generated_state"
  by (simp_all add: merge_def overwrite_def graded_state_def searched_state_def
      answered_state_def generated_state_def ex_state_def)

lemma ex_grade:
  "grade_generation_grounded_in_documents_and_question ex_env answered_state = Inr ''useful''"
  by (simp add: grade_generation_grounded_in_documents_and_question_def getitem_def ex_env_def
      answered_state_def searched_state_def graded_state_def ex_state_def)

lemma ex_run:
  "run workflow (\<lambda>t. ex_env) recursion_limit 3 (WEBSEARCH, graded_state) =
     Inr (END, answered_state)"
proof -
  have s1: "step workflow ex_env (WEBSEARCH, graded_state) = Inr (GENERATE, searched_state)"
    using step_WEBSEARCH_success [OF ex_web_search] by (simp add: ex_merge)
  have s2: "step workflow ex_env (GENERATE, searched_state) = Inr (END, answered_state)"
    using step_GENERATE_success [OF ex_generate(2), of "''useful''" END]
    by (simp add: ex_merge ex_grade)
  have n: "(3::nat) = Suc (Suc (Suc 0))" by simp
  show ?thesis
    unfolding n by (simp add: run_pos recursion_limit_def s1 s2 node_distinct)
qed

lemma ex_state_evidence2:
  "evidence searched_state = [doc_agents, web_doc]" "evidence answered_state = [doc_agents, web_doc]"
  by (simp_all add: evidence_def searched_state_def answered_state_def)

lemma ex_persistent:
  "generation_succeeds (always unsupported_env)"
  "grading_always (always unsupported_env) ''not supported''"
  "generation_succeeds (always not_useful_env)"
  "search_succeeds (always not_useful_env)"
  "grading_always (always not_useful_env) ''not useful''"
  by (auto simp: generation_succeeds_def grading_always_def search_succeeds_def always_def
      unsupported_env_def not_useful_env_def ex_env_def ex_response_def ex_results_def
      grade_generation_grounded_in_documents_and_question_def getitem_def)

section \<open>The evidence set\<close>

lemma generate_keeps_evidence:
  "generate e state = Inr upd \<Longrightarrow> evidence (merge state upd) = evidence state"
  by (auto dest!: generate_Inr simp: merge_def overwrite_def evidence_def)

lemma web_search_extends_evidence:
  "web_search_node e state = Inr upd \<Longrightarrow> \<exists>d. evidence (merge state upd) = evidence state @ [d]"
  by (auto dest!: web_search_node_Inr simp: evidence_merge)

lemma run_Suc_Inr:
  assumes "run g E k (Suc n) c = Inr c'" and "fst c \<noteq> END"
  obtains k' mid where "k = Suc k'" and "step g (E 0) c = Inr mid"
    and "run g (\<lambda>t. E (Suc t)) k' n mid = Inr c'"
  using assms by (cases k) (auto split: sum.splits)

lemma run_from_END:
  "run g E k n c = Inr c' \<Longrightarrow> fst c = END \<Longrightarrow> c' = c"
  by (cases n; cases k) simp_all

lemma run_extends_evidence:
  "name \<in> {GENERATE, WEBSEARCH, END} \<Longrightarrow> run workflow E k n (name, state) = Inr (name', state') \<Longrightarrow>
     prefix (evidence state) (evidence state') \<and> name' \<in> {GENERATE, WEBSEARCH, END}"
proof (induction n arbitrary: E k name state)
  case 0
  then show ?case by simp
next
  case (Suc n)
  show ?case
  proof (cases "name = END")
    case True
    with run_from_END [OF Suc.prems(2)] show ?thesis by simp
  next
    case False
    with Suc.prems(2) obtain k' target mid where
      st: "step workflow (E 0) (name, state) = Inr (target, mid)" and
      rn: "run workflow (\<lambda>t. E (Suc t)) k' n (target, mid) = Inr (name', state')"
      by (cases k) (auto split: sum.splits)
    have "prefix (evidence state) (evidence mid) \<and> target \<in> {GENERATE, WEBSEARCH, END}"
    proof (cases "name = GENERATE")
      case True
      with st show ?thesis
        by (auto dest!: step_GENERATE simp: generate_keeps_evidence)
    next
      case False
      with \<open>name \<noteq> END\<close> Suc.prems(1) have "name = WEBSEARCH" by simp
      with st show ?thesis
        by (auto dest!: step_WEBSEARCH web_search_extends_evidence)
    qed
    moreover from this Suc.IH [OF _ rn]
    have "prefix (evidence mid) (evidence state') \<and> name' \<in> {GENERATE, WEBSEARCH, END}"
      by blast
    ultimately show ?thesis by (auto intro: prefix_order.trans)
  qed
qed

text \<open>
  C1, as stated: once the evidence set is non-empty, every node's update preserves it or
  extends it by appending. This fails. In a traversal that retrieves two documents of
  which the grader keeps one, the GRADE_DOCUMENTS step shortens the evidence set from two
  documents to one; and the RETRIEVE step on an input state that carries three documents
  replaces them by the retriever's two.
\<close>

theorem evidence_shortened_counterexample:
  "step workflow ex_env (RETRIEVE, ex_state) = Inr (GRADE_DOCUMENTS, retrieved_state) \<and>
   evidence retrieved_state = [doc_agents, doc_pasta] \<and>
   step workflow ex_env (GRADE_DOCUMENTS, retrieved_state) = Inr (WEBSEARCH, graded_state) \<and>
   evidence graded_state = [doc_agents] \<and>
   evidence seeded_state = [doc_pasta, doc_pasta, doc_agents] \<and>
   step workflow ex_env (RETRIEVE, seeded_state) = Inr (GRADE_DOCUMENTS, retrieved_state)"
  by (simp add: ex_state_evidence)
     (simp add: ex_env_def ex_state_def retrieved_state_def graded_state_def seeded_state_def
      doc_agents_def doc_pasta_def step_def workflow_def retrieve_def grade_documents_def
      decide_to_generate_def getitem_def merge_def overwrite_def node_names)

text \<open>
  C1, amended: the generate node preserves the evidence set and the web_search node
  extends it by one appended document; in every traversal, from the first GENERATE or
  WEBSEARCH step on, the evidence set of an earlier state is a prefix of the evidence set
  of every later state (never truncated, deduplicated or reordered), and the traversal
  stays in GENERATE, WEBSEARCH and END.
\<close>

theorem evidence_extended_after_grading:
  "(generate e state = Inr upd \<longrightarrow> evidence (merge state upd) = evidence state) \<and>
   (web_search_node e state = Inr upd' \<longrightarrow>
      (\<exists>d. evidence (merge state upd') = evidence state @ [d])) \<and>
   (name \<in> {GENERATE, WEBSEARCH} \<and> run workflow E k n (name, state0) = Inr (name', state') \<longrightarrow>
      prefix (evidence state0) (evidence state') \<and> name' \<in> {GENERATE, WEBSEARCH, END})"
  using generate_keeps_evidence [of e state upd] web_search_extends_evidence [of e state upd']
    run_extends_evidence [of name E k n state0 name' state']
  by blast

theorem evidence_extended_after_grading_witness:
  "evidence generated_state = [doc_agents] \<and>
   evidence searched_state = [doc_agents, web_doc] \<and>
   run workflow (\<lambda>t. ex_env) recursion_limit 3 (WEBSEARCH, graded_state) =
     Inr (END, answered_state) \<and>
   prefix [doc_agents] (evidence answered_state)"
  using evidence_extended_after_grading [of ex_env graded_state
      "\<lparr>question = Some ex_question, generation = Some ''an answer'', web_search = None,
        documents = Some [doc_agents]\<rparr>"
      "\<lparr>question = Some ex_question, generation = None, web_search = None,
        documents = Some [doc_agents, web_doc]\<rparr>"
      WEBSEARCH "\<lambda>t. ex_env" recursion_limit 3 graded_state END answered_state]
  by (simp add: ex_generate ex_web_search ex_run ex_merge ex_state_evidence ex_state_evidence2)

section \<open>The web-search node\<close>

text \<open>
  C5: for every prior evidence set, the empty and the absent one included, a web_search
  invocation that returns yields an evidence set that is the prior one followed by
  exactly one document: its length is the prior length plus one and its first documents
  are the prior ones, unchanged. The node returns whenever the question is present and
  the search answers with results that each have a content.
\<close>

theorem web_search_appends_exactly_one:
  assumes "question state = Some q"
    and "web_search_tool_invoke e web_search_tool q = Inr response"
    and "results response = Some rs"
    and "contents rs = Inr cs"
  shows "\<exists>upd d. web_search_node e state = Inr upd \<and>
           evidence (merge state upd) = evidence state @ [d] \<and>
           length (evidence (merge state upd)) = length (evidence state) + 1 \<and>
           take (length (evidence state)) (evidence (merge state upd)) = evidence state"
  using web_search_node_success [OF assms] by (simp add: evidence_merge)

theorem web_search_appends_exactly_one_witness:
  "\<exists>upd d. web_search_node ex_env retrieved_state = Inr upd \<and>
     evidence (merge retrieved_state upd) = [doc_agents, doc_pasta, d] \<and>
     length (evidence (merge retrieved_state upd)) = 3"
  using web_search_appends_exactly_one
      [OF ex_state_question(2) ex_search(1) ex_search(2) ex_search(3)]
  by (auto simp: ex_state_evidence)

text \<open>
  C6: the web_search node produces one synthetic document whose page content is the
  contents of the search results joined by newlines, and the search tool it invokes is
  configured to request at most 3 results.
\<close>

theorem web_search_document_content:
  assumes "question state = Some q"
    and "web_search_tool_invoke e web_search_tool q = Inr response"
    and "results response = Some rs"
    and "map content rs = map Some cs"
  shows "web_search_node e state =
           Inr \<lparr>question = Some q, generation = None, web_search = None,
                documents = Some (evidence state @
                  [\<lparr>page_content = join [CHR 0x0A] cs, metadata = []\<rparr>])\<rparr> \<and>
         max_results web_search_tool = 3"
  using web_search_node_success [OF assms(1-3)] assms(4)
  by (simp add: contents_Inr web_search_tool_def)

theorem web_search_document_content_witness:
  "web_search_node ex_env ex_state =
     Inr \<lparr>question = Some ex_question, generation = None, web_search = None,
          documents = Some [\<lparr>page_content = ''sunny'' @ [CHR 0x0A] @ ''22 C'', metadata = []\<rparr>]\<rparr> \<and>
   max_results web_search_tool = 3"
  using web_search_document_content
      [OF ex_state_question(1) ex_search(1) ex_search(2) ex_search(4)]
  by (simp add: ex_state_evidence)

section \<open>Routing at entry\<close>

text \<open>
  C4: at entry the traversal starts at WEBSEARCH exactly when the router's datasource is
  \<open>websearch\<close>, and at RETRIEVE otherwise (the two nodes differ); the edge out of
  RETRIEVE is the unconditional edge to GRADE_DOCUMENTS, which a RETRIEVE step follows
  whenever the retriever answers.
\<close>

theorem entry_routes_by_datasource:
  assumes "question state = Some q"
    and "question_router_invoke e q = Inr source"
  shows "start workflow e state =
           Inr (if datasource source = ''websearch'' then WEBSEARCH else RETRIEVE) \<and>
         WEBSEARCH \<noteq> RETRIEVE \<and>
         map_of (edges workflow) RETRIEVE = Some (Edge GRADE_DOCUMENTS) \<and>
         (\<forall>docs. retriever_invoke e q = Inr docs \<longrightarrow>
            step workflow e (RETRIEVE, state) =
              Inr (GRADE_DOCUMENTS, merge state
                 \<lparr>question = Some q, generation = None, web_search = None,
                  documents = Some docs\<rparr>))"
  using assms
  by (simp add: start_def workflow_def route_question_def getitem_def step_def retrieve_def
      node_names)

theorem entry_routes_by_datasource_witness:
  "start workflow web_router_env ex_state = Inr WEBSEARCH \<and>
   start workflow ex_env ex_state = Inr RETRIEVE \<and>
   step workflow ex_env (RETRIEVE, ex_state) = Inr (GRADE_DOCUMENTS, retrieved_state)"
proof -
  have m: "merge ex_state \<lparr>question = Some ex_question, generation = None, web_search = None,
             documents = Some [doc_agents, doc_pasta]\<rparr> = retrieved_state"
    by (simp add: merge_def overwrite_def ex_state_def retrieved_state_def)
  show ?thesis
    using entry_routes_by_datasource [OF ex_state_question(1) ex_router(1)]
      entry_routes_by_datasource [OF ex_state_question(1) ex_router(2)]
    by (simp add: ex_router(4) m)
qed

text \<open>
  C10: for every datasource other than the exact string \<open>websearch\<close>, whatever it is,
  \<open>route_question\<close> returns RETRIEVE and the traversal starts there: the label
  \<open>vectorstore\<close> is not compared with, and an unrecognised datasource is no error.
\<close>

theorem route_question_defaults_to_retrieve:
  assumes "question state = Some q"
    and "question_router_invoke e q = Inr source"
    and "datasource source \<noteq> ''websearch''"
  shows "route_question e state = Inr RETRIEVE \<and> start workflow e state = Inr RETRIEVE"
  using assms
  by (simp add: start_def workflow_def route_question_def getitem_def node_names)

theorem route_question_defaults_to_retrieve_witness:
  "route_question odd_router_env ex_state = Inr RETRIEVE \<and>
   start workflow odd_router_env ex_state = Inr RETRIEVE"
  using route_question_defaults_to_retrieve [OF ex_state_question(1) ex_router(3)]
  by simp

section \<open>Grading a generation\<close>

text \<open>
  The combined grading in terms of the truth values of the two scores. With boolean
  scores this is the three-way outcome; a non-empty string is true whatever it says.
\<close>

lemma grade_generation_Inr:
  assumes "question state = Some q" and "documents state = Some docs"
    and "generation state = Some g"
    and "hallucination_grader_invoke e docs g = Inr h"
    and "answer_grader_invoke e q g = Inr a"
  shows "grade_generation_grounded_in_documents_and_question e state =
           Inr (if \<not> truthy (binary_score h) then ''not supported''
                else if truthy (binary_score a) then ''useful'' else ''not useful'')"
  using assms by (simp add: grade_generation_grounded_in_documents_and_question_def getitem_def)

text \<open>
  C2: the claim is that the combined grading returns \<open>not supported\<close> exactly when the
  hallucination grader's verdict is \<open>no\<close>. The code tests the score for truth, and the
  string \<open>no\<close> is true: with the verdict \<open>no\<close> the answer grader is consulted, the outcome
  is \<open>useful\<close> and the GENERATE step ends the traversal.
\<close>

theorem hallucination_no_is_graded_useful:
  "hallucination_grader_invoke ex_env [doc_agents] ''an answer'' =
     Inr \<lparr>binary_score = PyStr ''no''\<rparr> \<and>
   grade_generation_grounded_in_documents_and_question ex_env generated_state = Inr ''useful'' \<and>
   step workflow ex_env (GENERATE, graded_state) = Inr (END, generated_state)"
  by (simp add: ex_env_def ex_state_def graded_state_def generated_state_def
      grade_generation_grounded_in_documents_and_question_def getitem_def
      step_def workflow_def generate_def merge_def overwrite_def node_names)

section \<open>Grading the documents\<close>

lemma filter_shorter_iff:
  "length (filter P xs) < length xs \<longleftrightarrow> (\<exists>x\<in>set xs. \<not> P x)"
proof (induction xs)
  case Nil
  then show ?case by simp
next
  case (Cons x xs)
  have "length (filter P xs) \<le> length xs" by simp
  with Cons show ?case by auto
qed

text \<open>
  C3: when the grader answers on every document, the grade-documents step retains in the
  evidence set exactly the documents graded relevant, in their order, and sets the flag
  if and only if at least one document was graded not-relevant, which is to say that at
  least one document was dropped; the step then leads to WEBSEARCH exactly when the flag
  is set, else to GENERATE.
\<close>

theorem grade_documents_filters_and_flags:
  assumes "question state = Some q"
    and "documents state = Some docs"
    and "\<forall>d\<in>set docs. grader_answers e q d"
  shows "\<exists>upd flag.
           grade_documents e state = Inr upd \<and>
           documents upd = Some (filter (graded_relevant e q) docs) \<and>
           evidence (merge state upd) = filter (graded_relevant e q) docs \<and>
           web_search upd = Some flag \<and>
           (flag \<longleftrightarrow> (\<exists>d\<in>set docs. \<not> graded_relevant e q d)) \<and>
           (flag \<longleftrightarrow> length (evidence (merge state upd)) < length docs) \<and>
           step workflow e (GRADE_DOCUMENTS, state) =
             Inr (if flag then WEBSEARCH else GENERATE, merge state upd) \<and>
           WEBSEARCH \<noteq> GENERATE"
proof -
  let ?kept = "filter (graded_relevant e q) docs"
  let ?flag = "\<exists>d\<in>set docs. \<not> graded_relevant e q d"
  let ?upd = "\<lparr>question = Some q, generation = None, web_search = Some ?flag,
               documents = Some ?kept\<rparr>"
  have g: "grade_documents e state = Inr ?upd"
    using assms by (simp add: grade_documents_def getitem_def grade_each_filter)
  have ev: "evidence (merge state ?upd) = ?kept"
    by (simp add: evidence_merge)
  have f: "?flag \<longleftrightarrow> length (evidence (merge state ?upd)) < length docs"
    unfolding ev by (simp add: filter_shorter_iff)
  have m: "web_search (merge state ?upd) = Some ?flag"
    by (simp add: merge_def overwrite_def)
  have n: "WEBSEARCH \<noteq> GENERATE"
    by (simp add: node_names)
  from step_GRADE_DOCUMENTS_success [OF g m] g ev f n show ?thesis
    by (intro exI [of _ ?upd] exI [of _ ?flag]) simp
qed

theorem grade_documents_filters_and_flags_witness:
  "(\<exists>upd. grade_documents ex_env retrieved_state = Inr upd \<and>
      documents upd = Some [doc_agents] \<and> web_search upd = Some True \<and>
      step workflow ex_env (GRADE_DOCUMENTS, retrieved_state) =
        Inr (WEBSEARCH, merge retrieved_state upd)) \<and>
   (\<exists>upd. grade_documents ex_env graded_state = Inr upd \<and>
      documents upd = Some [doc_agents] \<and> web_search upd = Some False \<and>
      step workflow ex_env (GRADE_DOCUMENTS, graded_state) =
        Inr (GENERATE, merge graded_state upd)) \<and>
   (\<exists>upd. grade_documents ex_env empty_state = Inr upd \<and>
      documents upd = Some [] \<and> web_search upd = Some False \<and>
      step workflow ex_env (GRADE_DOCUMENTS, empty_state) =
        Inr (GENERATE, merge empty_state upd))"
proof -
  have d3: "documents empty_state = Some []"
    by (simp add: empty_state_def)
  have a3: "\<forall>d\<in>set []. grader_answers ex_env ex_question d"
    by simp
  have d1: "documents retrieved_state = Some [doc_agents, doc_pasta]"
    by (simp add: retrieved_state_def)
  have d2: "documents graded_state = Some [doc_agents]"
    by (simp add: graded_state_def)
  have a1: "\<forall>d\<in>set [doc_agents, doc_pasta]. grader_answers ex_env ex_question d"
    by (simp add: ex_grader)
  have a2: "\<forall>d\<in>set [doc_agents]. grader_answers ex_env ex_question d"
    by (simp add: ex_grader)
  from grade_documents_filters_and_flags [OF ex_state_question(2) d1 a1]
  have "\<exists>upd. grade_documents ex_env retrieved_state = Inr upd \<and>
      documents upd = Some [doc_agents] \<and> web_search upd = Some True \<and>
      step workflow ex_env (GRADE_DOCUMENTS, retrieved_state) =
        Inr (WEBSEARCH, merge retrieved_state upd)"
    by (auto simp: ex_grader)
  moreover from grade_documents_filters_and_flags [OF ex_state_question(3) d2 a2]
  have "\<exists>upd. grade_documents ex_env graded_state = Inr upd \<and>
      documents upd = Some [doc_agents] \<and> web_search upd = Some False \<and>
      step workflow ex_env (GRADE_DOCUMENTS, graded_state) =
        Inr (GENERATE, merge graded_state upd)"
    by (auto simp: ex_grader)
  moreover from grade_documents_filters_and_flags [OF ex_state_question(6) d3 a3]
  have "\<exists>upd. grade_documents ex_env empty_state = Inr upd \<and>
      documents upd = Some [] \<and> web_search upd = Some False \<and>
      step workflow ex_env (GRADE_DOCUMENTS, empty_state) =
        Inr (GENERATE, merge empty_state upd)"
    by auto
  ultimately show ?thesis by blast
qed

section \<open>The question\<close>





section \<open>Cycles and the recursion limit\<close>

lemma generation_succeeds_shift:
  "generation_succeeds E \<Longrightarrow> generation_succeeds (\<lambda>t. E (Suc t))"
  by (simp add: generation_succeeds_def)

lemma search_succeeds_shift:
  "search_succeeds E \<Longrightarrow> search_succeeds (\<lambda>t. E (Suc t))"
  by (simp add: search_succeeds_def)

lemma grading_always_shift:
  "grading_always E label \<Longrightarrow> grading_always (\<lambda>t. E (Suc t)) label"
  by (simp add: grading_always_def)

lemma generate_step_under_persistent_grading:
  assumes "question state \<noteq> None" and "documents state \<noteq> None"
    and "generation_succeeds E" and "grading_always E label"
    and "map_of [(''not supported'', GENERATE), (''useful'', END), (''not useful'', WEBSEARCH)]
           label = Some target"
  shows "\<exists>state'. step workflow (E 0) (GENERATE, state) = Inr (target, state') \<and>
           question state' \<noteq> None \<and> documents state' \<noteq> None"
proof -
  from assms(1,2) obtain q docs where
    q: "question state = Some q" and d: "documents state = Some docs"
    by auto
  from assms(3) obtain g where "generation_chain_invoke (E 0) docs q = Inr g"
    unfolding generation_succeeds_def by blast
  with q d have gen: "generate (E 0) state =
      Inr \<lparr>question = Some q, generation = Some g, web_search = None, documents = Some docs\<rparr>"
    (is "_ = Inr ?upd")
    by (simp add: generate_def getitem_def)
  have m: "question (merge state ?upd) \<noteq> None \<and> documents (merge state ?upd) \<noteq> None \<and>
      generation (merge state ?upd) \<noteq> None"
    by (simp add: merge_def overwrite_def)
  with assms(4) have
    "grade_generation_grounded_in_documents_and_question (E 0) (merge state ?upd) = Inr label"
    unfolding grading_always_def by blast
  from step_GENERATE_success [OF gen this assms(5)] m show ?thesis
    by blast
qed

lemma web_search_step_under_search:
  assumes "question state \<noteq> None" and "search_succeeds E"
  shows "\<exists>state'. step workflow (E 0) (WEBSEARCH, state) = Inr (GENERATE, state') \<and>
           question state' \<noteq> None \<and> documents state' \<noteq> None"
proof -
  from assms(1) obtain q where q: "question state = Some q"
    by auto
  from assms(2) obtain response rs cs where
    "web_search_tool_invoke (E 0) web_search_tool q = Inr response"
    "results response = Some rs" "contents rs = Inr cs"
    unfolding search_succeeds_def by blast
  from web_search_node_success [OF q this]
  obtain upd where w: "web_search_node (E 0) state = Inr upd"
    and u: "question upd = Some q" "documents upd \<noteq> None"
    by simp
  from u have "question (merge state upd) \<noteq> None \<and> documents (merge state upd) \<noteq> None"
    by (auto simp: merge_def overwrite_def)
  with step_WEBSEARCH_success [OF w] show ?thesis
    by blast
qed

lemma regeneration_until_limit:
  assumes "generation_succeeds E" and "grading_always E ''not supported''"
    and "question state \<noteq> None" and "documents state \<noteq> None"
  shows "(n \<le> k \<longrightarrow> (\<exists>state'. run workflow E k n (GENERATE, state) = Inr (GENERATE, state'))) \<and>
         (k < n \<longrightarrow> run workflow E k n (GENERATE, state) = Inl GraphRecursionError)"
  using assms
proof (induction n arbitrary: E k state)
  case 0
  then show ?case by simp
next
  case (Suc n)
  show ?case
  proof (cases k)
    case 0
    then show ?thesis by simp
  next
    case (Suc k')
    from generate_step_under_persistent_grading
      [OF Suc.prems(3) Suc.prems(4) Suc.prems(1) Suc.prems(2), of GENERATE]
    obtain mid where st: "step workflow (E 0) (GENERATE, state) = Inr (GENERATE, mid)"
      and inv: "question mid \<noteq> None" "documents mid \<noteq> None"
      by auto
    from Suc.IH [OF generation_succeeds_shift [OF Suc.prems(1)]
        grading_always_shift [OF Suc.prems(2)] inv, of k']
    show ?thesis
      using st \<open>k = Suc k'\<close> by (simp add: node_distinct)
  qed
qed

lemma search_cycle_until_limit:
  assumes "generation_succeeds E" and "search_succeeds E" and "grading_always E ''not useful''"
    and "question state \<noteq> None"
    and "name = WEBSEARCH \<or> name = GENERATE \<and> documents state \<noteq> None"
  shows "(n \<le> k \<longrightarrow> (\<exists>state'. run workflow E k n (name, state) =
             Inr (if even n = (name = WEBSEARCH) then WEBSEARCH else GENERATE, state'))) \<and>
         (k < n \<longrightarrow> run workflow E k n (name, state) = Inl GraphRecursionError)"
  using assms
proof (induction n arbitrary: E k state name)
  case 0
  then show ?case by (auto simp: node_distinct)
next
  case (Suc n)
  note shifted = generation_succeeds_shift [OF Suc.prems(1)] search_succeeds_shift [OF Suc.prems(2)]
    grading_always_shift [OF Suc.prems(3)]
  show ?case
  proof (cases k)
    case 0
    then show ?thesis by simp
  next
    case (Suc k')
    show ?thesis
    proof (cases "name = WEBSEARCH")
      case True
      from web_search_step_under_search [OF Suc.prems(4) Suc.prems(2)]
      obtain mid where st: "step workflow (E 0) (WEBSEARCH, state) = Inr (GENERATE, mid)"
        and inv: "question mid \<noteq> None" "documents mid \<noteq> None"
        by auto
      from Suc.IH [OF shifted inv(1), of GENERATE k'] inv(2)
      show ?thesis
        using st True \<open>k = Suc k'\<close>
        by (auto simp: node_distinct node_distinct(5) [symmetric])
    next
      case False
      with Suc.prems(5) have nm: "name = GENERATE" and d: "documents state \<noteq> None"
        by auto
      from generate_step_under_persistent_grading
        [OF Suc.prems(4) d Suc.prems(1) Suc.prems(3), of WEBSEARCH]
      obtain mid where st: "step workflow (E 0) (GENERATE, state) = Inr (WEBSEARCH, mid)"
        and inv: "question mid \<noteq> None"
        by auto
      from Suc.IH [OF shifted inv, of WEBSEARCH k']
      show ?thesis
        using st nm \<open>k = Suc k'\<close>
        by (auto simp: node_distinct node_distinct(5) [symmetric])
    qed
  qed
qed

text \<open>
  A whole invocation, from entry: the question is routed to RETRIEVE, one of the two
  retrieved documents is dropped, WEBSEARCH follows, and every generation is graded
  \<open>not supported\<close>.
\<close>

lemma always_shift: "(\<lambda>t. always e (Suc t)) = always e"
  by (simp add: always_def fun_eq_iff)

lemma run_step:
  "step g (E 0) c = Inr c' \<Longrightarrow> fst c \<noteq> END \<Longrightarrow>
     run g E (Suc k) (Suc n) c = run g (\<lambda>t. E (Suc t)) k n c'"
  by simp

lemma ex_unsupported_steps:
  "step workflow unsupported_env (RETRIEVE, ex_state) = Inr (GRADE_DOCUMENTS, retrieved_state)"
  "step workflow unsupported_env (GRADE_DOCUMENTS, retrieved_state) = Inr (WEBSEARCH, graded_state)"
  "step workflow unsupported_env (WEBSEARCH, graded_state) = Inr (GENERATE, searched_state)"
  by (simp_all add: unsupported_env_def ex_env_def ex_response_def ex_results_def ex_state_def
      retrieved_state_def graded_state_def searched_state_def web_doc_def doc_agents_def
      doc_pasta_def step_def workflow_def retrieve_def grade_documents_def web_search_node_def
      evidence_def decide_to_generate_def getitem_def merge_def overwrite_def node_names)

lemma ex_invoke_unsupported:
  "invoke workflow (always unsupported_env) ex_state = Inl GraphRecursionError"
proof -
  let ?E = "always unsupported_env"
  have st: "start workflow (?E 0) ex_state = Inr RETRIEVE"
    by (simp add: always_def unsupported_env_def ex_env_def ex_state_def start_def workflow_def
        route_question_def getitem_def node_names)
  have ne: "fst (RETRIEVE, ex_state) \<noteq> END" "fst (GRADE_DOCUMENTS, retrieved_state) \<noteq> END"
    "fst (WEBSEARCH, graded_state) \<noteq> END"
    by (simp_all add: node_distinct)
  have e0: "?E 0 = unsupported_env"
    by (simp add: always_def)
  have "run workflow ?E 25 26 (RETRIEVE, ex_state) =
      run workflow ?E 24 25 (GRADE_DOCUMENTS, retrieved_state)"
    using run_step [of workflow ?E _ _ 24 25, OF _ ne(1)] ex_unsupported_steps(1)
    by (simp add: e0 always_shift)
  also have "\<dots> = run workflow ?E 23 24 (WEBSEARCH, graded_state)"
    using run_step [of workflow ?E _ _ 23 24, OF _ ne(2)] ex_unsupported_steps(2)
    by (simp add: e0 always_shift)
  also have "\<dots> = run workflow ?E 22 23 (GENERATE, searched_state)"
    using run_step [of workflow ?E _ _ 22 23, OF _ ne(3)] ex_unsupported_steps(3)
    by (simp add: e0 always_shift)
  also have "\<dots> = Inl GraphRecursionError"
    using regeneration_until_limit [OF ex_persistent(1) ex_persistent(2), of searched_state 23 22]
    by (simp add: searched_state_def graded_state_def ex_state_def)
  finally show ?thesis
    by (simp add: invoke_def st always_shift recursion_limit_def)
qed

text \<open>Whatever the services do, a run that has used up the recursion limit is at END.\<close>

lemma run_beyond_limit:
  "k < n \<Longrightarrow> run g E k n c = Inr c' \<Longrightarrow> fst c' = END"
proof (induction n arbitrary: E k c)
  case 0
  then show ?case by simp
next
  case (Suc n)
  show ?case
  proof (cases "fst c = END")
    case True
    with run_from_END [OF Suc.prems(2)] show ?thesis by simp
  next
    case False
    with Suc.prems(2) obtain k' mid where "k = Suc k'"
      and "run g (\<lambda>t. E (Suc t)) k' n mid = Inr c'"
      by (rule run_Suc_Inr)
    with Suc.prems(1) Suc.IH [of k' "\<lambda>t. E (Suc t)" mid] show ?thesis
      by simp
  qed
qed

text \<open>
  C7, as stated: under a persistent \<open>not supported\<close> (or \<open>not useful\<close>) the traversal
  cycles forever. This fails: the run of the compiled graph is bounded by the library's
  recursion limit. With graders that persistently yield \<open>not supported\<close> (or
  \<open>not useful\<close>), there is no 26th step: the run has stopped with
  \<open>GraphRecursionError\<close>, and so has the whole invocation from entry.
\<close>

theorem cycle_stopped_by_recursion_limit_counterexample:
  "invoke workflow (always unsupported_env) ex_state = Inl GraphRecursionError \<and>
   run workflow (always unsupported_env) recursion_limit 26 (GENERATE, graded_state) =
     Inl GraphRecursionError \<and>
   run workflow (always not_useful_env) recursion_limit 26 (WEBSEARCH, graded_state) =
     Inl GraphRecursionError"
proof -
  have q: "question graded_state \<noteq> None" and d: "documents graded_state \<noteq> None"
    by (simp_all add: graded_state_def ex_state_def)
  have lt: "recursion_limit < 26"
    by (simp add: recursion_limit_def)
  from regeneration_until_limit [OF ex_persistent(1) ex_persistent(2) q d, of 26 recursion_limit]
    search_cycle_until_limit [OF ex_persistent(3) ex_persistent(4) ex_persistent(5) q,
      of WEBSEARCH 26 recursion_limit]
  show ?thesis
    using lt by (simp add: ex_invoke_unsupported)
qed

text \<open>
  C7, amended: the graph sets no iteration cap of its own, so a traversal ends only at
  the terminal node or at the recursion limit of the run. If the generator answers at
  every step and the combined grading persistently yields \<open>not supported\<close>, a traversal
  at GENERATE is at GENERATE again after every step the limit allows; if the search
  answers too and the grading persistently yields \<open>not useful\<close>, a traversal at
  WEBSEARCH alternates between WEBSEARCH and GENERATE. Neither node is the terminal node:
  the traversal never reaches it, and once the limit's node executions are used up (25
  by default) the run stops with \<open>GraphRecursionError\<close>. No execution is infinite.
\<close>

theorem cycles_until_recursion_limit:
  "(question state = Some q \<and> documents state = Some docs \<and>
    generation_succeeds E \<and> grading_always E ''not supported'' \<longrightarrow>
      (\<forall>n\<le>k. \<exists>state'. run workflow E k n (GENERATE, state) = Inr (GENERATE, state')) \<and>
      (\<forall>n>k. run workflow E k n (GENERATE, state) = Inl GraphRecursionError)) \<and>
   (question state = Some q \<and>
    generation_succeeds E \<and> search_succeeds E \<and> grading_always E ''not useful'' \<longrightarrow>
      (\<forall>n\<le>k. \<exists>state'. run workflow E k n (WEBSEARCH, state) =
         Inr (if even n then WEBSEARCH else GENERATE, state')) \<and>
      (\<forall>n>k. run workflow E k n (WEBSEARCH, state) = Inl GraphRecursionError)) \<and>
   (\<forall>n>k. \<forall>c c'. run workflow E k n c = Inr c' \<longrightarrow> fst c' = END) \<and>
   GENERATE \<noteq> END \<and> WEBSEARCH \<noteq> END"
proof (intro conjI impI allI)
  fix n
  assume a: "question state = Some q \<and> documents state = Some docs \<and>
    generation_succeeds E \<and> grading_always E ''not supported''"
  {
    assume "n \<le> k"
    with a show "\<exists>state'. run workflow E k n (GENERATE, state) = Inr (GENERATE, state')"
      using regeneration_until_limit [of E state n k] by simp
  next
    assume "k < n"
    with a show "run workflow E k n (GENERATE, state) = Inl GraphRecursionError"
      using regeneration_until_limit [of E state n k] by simp
  }
next
  fix n
  assume a: "question state = Some q \<and>
    generation_succeeds E \<and> search_succeeds E \<and> grading_always E ''not useful''"
  {
    assume "n \<le> k"
    with a show "\<exists>state'. run workflow E k n (WEBSEARCH, state) =
         Inr (if even n then WEBSEARCH else GENERATE, state')"
      using search_cycle_until_limit [of E state WEBSEARCH n k] by simp
  next
    assume "k < n"
    with a show "run workflow E k n (WEBSEARCH, state) = Inl GraphRecursionError"
      using search_cycle_until_limit [of E state WEBSEARCH n k] by simp
  }
next
  fix n c c'
  assume "k < n" and "run workflow E k n c = Inr c'"
  then show "fst c' = END"
    by (rule run_beyond_limit)
qed (simp_all add: node_distinct)

theorem cycles_until_recursion_limit_witness:
  "(\<exists>state'. run workflow (always unsupported_env) recursion_limit 25 (GENERATE, graded_state) =
      Inr (GENERATE, state')) \<and>
   run workflow (always unsupported_env) recursion_limit 27 (GENERATE, graded_state) =
      Inl GraphRecursionError \<and>
   (\<exists>state'. run workflow (always not_useful_env) recursion_limit 25 (WEBSEARCH, graded_state) =
      Inr (GENERATE, state')) \<and>
   run workflow (always not_useful_env) recursion_limit 27 (WEBSEARCH, graded_state) =
      Inl GraphRecursionError"
proof -
  have d: "documents graded_state = Some [doc_agents]"
    by (simp add: graded_state_def)
  have le: "(25::nat) \<le> recursion_limit" and lt: "recursion_limit < 27"
    by (simp_all add: recursion_limit_def)
  from cycles_until_recursion_limit
    [of graded_state ex_question "[doc_agents]" "always unsupported_env" recursion_limit]
  have "(\<exists>state'. run workflow (always unsupported_env) recursion_limit 25 (GENERATE, graded_state) =
      Inr (GENERATE, state')) \<and>
    run workflow (always unsupported_env) recursion_limit 27 (GENERATE, graded_state) =
      Inl GraphRecursionError"
    using le lt by (simp add: ex_state_question d ex_persistent)
  moreover from cycles_until_recursion_limit
    [of graded_state ex_question "[doc_agents]" "always not_useful_env" recursion_limit]
  have "(\<forall>n\<le>recursion_limit. \<exists>state'. run workflow (always not_useful_env) recursion_limit n
        (WEBSEARCH, graded_state) = Inr (if even n then WEBSEARCH else GENERATE, state')) \<and>
    (\<forall>n>recursion_limit. run workflow (always not_useful_env) recursion_limit n
        (WEBSEARCH, graded_state) = Inl GraphRecursionError)"
    by (simp add: ex_state_question ex_persistent)
  then have "(\<exists>state'. run workflow (always not_useful_env) recursion_limit 25 (WEBSEARCH, graded_state) =
      Inr (GENERATE, state')) \<and>
    run workflow (always not_useful_env) recursion_limit 27 (WEBSEARCH, graded_state) =
      Inl GraphRecursionError"
    using le lt by fastforce
  ultimately show ?thesis by blast
qed

end
